theory Spec2Isabelle
  imports Main
begin

section \<open>JavaScript values\<close>

text \<open>
  The values that reach the service (event parameters, parsed JSON) as a tagged
  variant. A string is a list of code units; an object is the list of its own
  enumerable properties in the order \<open>Object.entries\<close> yields them (keys distinct).
  \<open>JOther s\<close> stands for a value of any other type (function, symbol, bigint),
  carrying its \<open>String(v)\<close> form \<open>s\<close>. Numbers are restricted to integers.
  Keys named \<open>__proto__\<close> (whose assignment sets a prototype instead of a
  property) are not treated specially.
\<close>

datatype jv =
    JUndef
  | JNull
  | JBool bool
  | JNum int
  | JStr string
  | JArr "jv list"
  | JObj "(string \<times> jv) list"
  | JOther string

subsection \<open>Decimal rendering of a length\<close>

definition digit_char :: "nat \<Rightarrow> char" where
  "digit_char d = char_of (48 + d)"

function decimal :: "nat \<Rightarrow> string" where
  "decimal n = (if n < 10 then [digit_char n] else decimal (n div 10) @ [digit_char (n mod 10)])"
  by pat_completeness auto
termination
  by (relation "measure (\<lambda>n. n)") auto

declare decimal.simps [simp del]

section \<open>Sanitizer (createSanitizer)\<close>

definition is_sk_char :: "char \<Rightarrow> bool" where
  "is_sk_char c = (let n = (of_char c :: nat) in
     (65 \<le> n \<and> n \<le> 90) \<or> (97 \<le> n \<and> n \<le> 122) \<or> (48 \<le> n \<and> n \<le> 57)
     \<or> c = CHR ''_'' \<or> c = CHR ''-'')"

text \<open>\<^verbatim>\<open>/^sk-[A-Za-z0-9_-]{10,}$/\<close>\<close>

definition sk_shaped :: "string \<Rightarrow> bool" where
  "sk_shaped s = (take 3 s = ''sk-'' \<and> 10 \<le> length (drop 3 s) \<and> list_all is_sk_char (drop 3 s))"

text \<open>The white space class \<^verbatim>\<open>\s\<close> on code units below 256.\<close>

definition is_space :: "char \<Rightarrow> bool" where
  "is_space c = ((of_char c :: nat) \<in> {9, 10, 11, 12, 13, 32, 160})"

definition lower_char :: "char \<Rightarrow> char" where
  "lower_char c = (let n = (of_char c :: nat) in if 65 \<le> n \<and> n \<le> 90 then char_of (n + 32) else c)"

definition to_lower :: "string \<Rightarrow> string" where
  "to_lower s = map lower_char s"

text \<open>\<^verbatim>\<open>/^Bearer\s+\S+/i\<close>\<close>

definition bearer_shaped :: "string \<Rightarrow> bool" where
  "bearer_shaped s =
     (to_lower (take 6 s) = ''bearer'' \<and>
      (let r = drop 6 s; t = dropWhile is_space r
       in r \<noteq> [] \<and> is_space (hd r) \<and> t \<noteq> []))"

definition redacted_len :: "nat \<Rightarrow> string" where
  "redacted_len n = ''<redacted:'' @ decimal n @ ''>''"

definition sanitizeStr :: "int \<Rightarrow> string \<Rightarrow> string" where
  "sanitizeStr maxString v =
     (if int (length v) > maxString then redacted_len (length v)
      else if sk_shaped v then ''<redacted:sk>''
      else if bearer_shaped v then ''<redacted:bearer>''
      else v)"

fun sanitizeAny :: "int \<Rightarrow> (string \<Rightarrow> bool) \<Rightarrow> jv \<Rightarrow> jv"
  and sanitizeEntries :: "int \<Rightarrow> (string \<Rightarrow> bool) \<Rightarrow> (string \<times> jv) list \<Rightarrow> (string \<times> jv) list"
where
  "sanitizeAny maxString isSensitiveKey JUndef = JUndef"
| "sanitizeAny maxString isSensitiveKey JNull = JNull"
| "sanitizeAny maxString isSensitiveKey (JStr v) = JStr (sanitizeStr maxString v)"
| "sanitizeAny maxString isSensitiveKey (JNum n) = JNum n"
| "sanitizeAny maxString isSensitiveKey (JBool b) = JBool b"
| "sanitizeAny maxString isSensitiveKey (JArr vs) = JArr (map (sanitizeAny maxString isSensitiveKey) vs)"
| "sanitizeAny maxString isSensitiveKey (JObj kvs) = JObj (sanitizeEntries maxString isSensitiveKey kvs)"
| "sanitizeAny maxString isSensitiveKey (JOther s) = JStr s"
| "sanitizeEntries maxString isSensitiveKey [] = []"
| "sanitizeEntries maxString isSensitiveKey ((k, val) # rest) =
     (if isSensitiveKey k then sanitizeEntries maxString isSensitiveKey rest
      else (k, sanitizeAny maxString isSensitiveKey val) # sanitizeEntries maxString isSensitiveKey rest)"

text \<open>
  \<open>String.prototype.includes\<close>: does \<open>needle\<close> occur in \<open>hay\<close> as a contiguous run.
\<close>

fun str_includes :: "string \<Rightarrow> string \<Rightarrow> bool" where
  "str_includes [] needle = (needle = [])"
| "str_includes (c # cs) needle = (take (length needle) (c # cs) = needle \<or> str_includes cs needle)"

text \<open>
  The default \<open>dropKeysRe\<close>, an alternation searched anywhere in the key with flag \<open>i\<close>.
  A configured pattern is an arbitrary predicate on keys and replaces the default.
\<close>

definition defaultDropKeys :: "string list" where
  "defaultDropKeys = [''token'', ''secret'', ''password'', ''authorization'', ''cookie'',
     ''apiKey'', ''apikey'', ''bearer'', ''accessToken'', ''refreshToken'', ''privateKey'']"

definition defaultDropKeysRe :: "string \<Rightarrow> bool" where
  "defaultDropKeysRe k = list_ex (\<lambda>alt. str_includes (to_lower k) (to_lower alt)) defaultDropKeys"

text \<open>
  What \<open>start\<close> takes from the plugin configuration and its context:
  \<open>cfg.maxString\<close> when it is a finite number (an integer here, \<open>None\<close>
  otherwise), the compiled \<open>cfg.dropKeysRegex\<close> when one is given, the agent id
  and display name, and \<open>enableNotes\<close>.
\<close>

record config =
  cfg_maxString :: "int option"
  cfg_dropKeysRegex :: "(string \<Rightarrow> bool) option"
  cfg_agentId :: string
  cfg_agentDisplayName :: string
  cfg_enableNotes :: bool

definition maxString :: "config \<Rightarrow> int" where
  "maxString cfg = (case cfg_maxString cfg of Some m \<Rightarrow> m | None \<Rightarrow> 160)"

definition dropKeysRe :: "config \<Rightarrow> string \<Rightarrow> bool" where
  "dropKeysRe cfg = (case cfg_dropKeysRegex cfg of Some re \<Rightarrow> re | None \<Rightarrow> defaultDropKeysRe)"

text \<open>The configuration when the plugin is given none.\<close>

definition defaultConfig :: config where
  "defaultConfig = \<lparr>cfg_maxString = None, cfg_dropKeysRegex = None, cfg_agentId = ''main'',
     cfg_agentDisplayName = ''main'', cfg_enableNotes = True\<rparr>"

definition sanitize :: "config \<Rightarrow> jv \<Rightarrow> jv" where
  "sanitize cfg = sanitizeAny (maxString cfg) (dropKeysRe cfg)"

text \<open>All property keys of a value, at every nesting depth.\<close>

fun keysDeep :: "jv \<Rightarrow> string list"
  and keysDeepEntries :: "(string \<times> jv) list \<Rightarrow> string list"
  and keysDeepElems :: "jv list \<Rightarrow> string list"
where
  "keysDeep (JObj kvs) = keysDeepEntries kvs"
| "keysDeep (JArr vs) = keysDeepElems vs"
| "keysDeep JUndef = []"
| "keysDeep JNull = []"
| "keysDeep (JBool b) = []"
| "keysDeep (JNum n) = []"
| "keysDeep (JStr s) = []"
| "keysDeep (JOther s) = []"
| "keysDeepEntries [] = []"
| "keysDeepEntries ((k, v) # rest) = k # keysDeep v @ keysDeepEntries rest"
| "keysDeepElems [] = []"
| "keysDeepElems (v # vs) = keysDeep v @ keysDeepElems vs"

section \<open>JavaScript coercions used by the service\<close>

fun truthy :: "jv \<Rightarrow> bool" where
  "truthy JUndef = False"
| "truthy JNull = False"
| "truthy (JBool b) = b"
| "truthy (JNum n) = (n \<noteq> 0)"
| "truthy (JStr s) = (s \<noteq> [])"
| "truthy (JArr vs) = True"
| "truthy (JObj kvs) = True"
| "truthy (JOther s) = True"

text \<open>\<open>a || b\<close>\<close>

definition js_or :: "jv \<Rightarrow> jv \<Rightarrow> jv" where
  "js_or a b = (if truthy a then a else b)"

definition show_int :: "int \<Rightarrow> string" where
  "show_int n = (if n < 0 then CHR ''-'' # decimal (nat (- n)) else decimal (nat n))"

text \<open>\<open>String(v)\<close>, also the coercion of a template literal and of \<open>+\<close> with a string.\<close>

fun to_string :: "jv \<Rightarrow> string"
  and join_comma :: "jv list \<Rightarrow> string"
where
  "to_string JUndef = ''undefined''"
| "to_string JNull = ''null''"
| "to_string (JBool b) = (if b then ''true'' else ''false'')"
| "to_string (JNum n) = show_int n"
| "to_string (JStr s) = s"
| "to_string (JArr vs) = join_comma vs"
| "to_string (JObj kvs) = ''[object Object]''"
| "to_string (JOther s) = s"
| "join_comma [] = []"
| "join_comma (v # vs) =
     (case v of JUndef \<Rightarrow> [] | JNull \<Rightarrow> [] | _ \<Rightarrow> to_string v)
     @ (if vs = [] then [] else CHR '','' # join_comma vs)"

text \<open>
  Property read \<open>obj?.[k]\<close> for the keys the service reads (none of them is a
  built-in property of strings, arrays or numbers): an own property of an object,
  \<open>undefined\<close> otherwise.
\<close>

definition get_prop :: "jv \<Rightarrow> string \<Rightarrow> jv" where
  "get_prop obj k =
     (case obj of
        JObj kvs \<Rightarrow> (case map_of kvs k of Some v \<Rightarrow> v | None \<Rightarrow> JUndef)
      | _ \<Rightarrow> JUndef)"

text \<open>\<open>Object.entries\<close> of a truthy value.\<close>

definition object_entries :: "jv \<Rightarrow> (string \<times> jv) list" where
  "object_entries v =
     (case v of
        JObj kvs \<Rightarrow> kvs
      | JArr vs \<Rightarrow> zip (map decimal [0 ..< length vs]) vs
      | JStr s \<Rightarrow> zip (map decimal [0 ..< length s]) (map (\<lambda>c. JStr [c]) s)
      | _ \<Rightarrow> [])"

definition trim :: "string \<Rightarrow> string" where
  "trim s = rev (dropWhile is_space (rev (dropWhile is_space s)))"


section \<open>Extraction of paths, URL and summary\<close>

definition path_keys :: "string list" where
  "path_keys = [''path'', ''filePath'', ''file_path'', ''outPath'', ''jsonlPath'']"

text \<open>
  The \<open>walk\<close> of \<open>pickPaths\<close>; the result lists the strings pushed, in push order.
  \<open>walkPathsElems i\<close> goes through the entries of an array from index \<open>i\<close> on,
  \<open>walkPathsEach\<close> is \<open>v.forEach(walk)\<close>.
\<close>

fun walkPaths :: "jv \<Rightarrow> string list"
  and walkPathsEntries :: "(string \<times> jv) list \<Rightarrow> string list"
  and walkPathsElems :: "nat \<Rightarrow> jv list \<Rightarrow> string list"
  and walkPathsEach :: "jv list \<Rightarrow> string list"
where
  "walkPaths (JObj kvs) = walkPathsEntries kvs"
| "walkPaths (JArr vs) = walkPathsElems 0 vs"
| "walkPaths JUndef = []"
| "walkPaths JNull = []"
| "walkPaths (JBool b) = []"
| "walkPaths (JNum n) = []"
| "walkPaths (JStr s) = []"
| "walkPaths (JOther s) = []"
| "walkPathsEntries [] = []"
| "walkPathsEntries ((k, v) # rest) =
     (case v of
        JStr s \<Rightarrow> if k \<in> set path_keys then [s] else []
      | JArr vs \<Rightarrow> walkPathsEach vs
      | JObj kvs \<Rightarrow> walkPathsEntries kvs
      | _ \<Rightarrow> [])
     @ walkPathsEntries rest"
| "walkPathsElems i [] = []"
| "walkPathsElems i (v # rest) =
     (case v of
        JStr s \<Rightarrow> if decimal i \<in> set path_keys then [s] else []
      | JArr vs \<Rightarrow> walkPathsEach vs
      | JObj kvs \<Rightarrow> walkPathsEntries kvs
      | _ \<Rightarrow> [])
     @ walkPathsElems (Suc i) rest"
| "walkPathsEach [] = []"
| "walkPathsEach (v # rest) = walkPaths v @ walkPathsEach rest"

text \<open>\<open>[...new Set(paths)]\<close>: the first occurrence of each element, in order.\<close>

fun uniq :: "'a list \<Rightarrow> 'a list" where
  "uniq [] = []"
| "uniq (x # xs) = x # uniq (filter (\<lambda>y. y \<noteq> x) xs)"

definition pickPaths :: "jv \<Rightarrow> string list" where
  "pickPaths args = take 6 (uniq (walkPaths args))"

definition is_url_key :: "string \<Rightarrow> bool" where
  "is_url_key k = (str_includes (to_lower k) ''url'' \<or> k = ''targetUrl'')"

fun walkUrl :: "jv \<Rightarrow> string list"
  and walkUrlEntries :: "(string \<times> jv) list \<Rightarrow> string list"
  and walkUrlElems :: "nat \<Rightarrow> jv list \<Rightarrow> string list"
where
  "walkUrl (JObj kvs) = walkUrlEntries kvs"
| "walkUrl (JArr vs) = walkUrlElems 0 vs"
| "walkUrl JUndef = []"
| "walkUrl JNull = []"
| "walkUrl (JBool b) = []"
| "walkUrl (JNum n) = []"
| "walkUrl (JStr s) = []"
| "walkUrl (JOther s) = []"
| "walkUrlEntries [] = []"
| "walkUrlEntries ((k, v) # rest) =
     (case v of
        JStr s \<Rightarrow> if is_url_key k then [s] else []
      | JArr vs \<Rightarrow> walkUrlElems 0 vs
      | JObj kvs \<Rightarrow> walkUrlEntries kvs
      | _ \<Rightarrow> [])
     @ walkUrlEntries rest"
| "walkUrlElems i [] = []"
| "walkUrlElems i (v # rest) =
     (case v of
        JStr s \<Rightarrow> if is_url_key (decimal i) then [s] else []
      | JArr vs \<Rightarrow> walkUrlElems 0 vs
      | JObj kvs \<Rightarrow> walkUrlEntries kvs
      | _ \<Rightarrow> [])
     @ walkUrlElems (Suc i) rest"

text \<open>\<open>candidates.find(Boolean)\<close>: the first non-empty candidate, or \<open>undefined\<close>.\<close>

definition pickUrl :: "jv \<Rightarrow> jv" where
  "pickUrl args = (case filter (\<lambda>s. s \<noteq> []) (walkUrl args) of [] \<Rightarrow> JUndef | s # _ \<Rightarrow> JStr s)"

definition summarize :: "jv \<Rightarrow> jv \<Rightarrow> jv" where
  "summarize toolName params =
     (if toolName = JStr ''exec'' then
        (let cmd = (if truthy (get_prop params ''command'')
                    then to_string (get_prop params ''command'') else []);
             short = (if length cmd > 160 then take 157 cmd @ ''...'' else cmd)
         in JStr short)
      else if toolName = JStr ''write'' \<or> toolName = JStr ''edit'' \<or> toolName = JStr ''read'' then
        js_or (get_prop params ''path'')
          (js_or (get_prop params ''filePath'')
            (js_or (get_prop params ''file_path'') (JStr [])))
      else if toolName = JStr ''browser'' then
        (let action = js_or (get_prop params ''action'') (JStr []);
             url = js_or (get_prop params ''targetUrl'') (JStr [])
         in JStr (trim (to_string action @ (if truthy url then '' '' @ to_string url else []))))
      else if toolName = JStr ''message'' then
        (let action = js_or (get_prop params ''action'') (JStr []);
             channel = js_or (get_prop params ''channel'') (JStr [])
         in JStr (trim (to_string action @ (if truthy channel then '' '' @ to_string channel else []))))
      else if toolName = JStr ''cron'' then
        (let action = js_or (get_prop params ''action'') (JStr [])
         in JStr (trim (to_string action)))
      else JStr [])"


section \<open>Start/done correlator (pushStart, popRecentStart)\<close>

record start =
  tsMs :: int
  summary :: jv
  paths :: "string list"
  url :: jv

text \<open>
  \<open>recentStarts\<close>: session key to tool name to queue. Keys are compared by value.
\<close>

type_synonym starts = "jv \<rightharpoonup> (jv \<rightharpoonup> start list)"

text \<open>\<open>while (q.length > 40) q.shift()\<close>\<close>

function shiftOver :: "start list \<Rightarrow> start list" where
  "shiftOver q = (if length q > 40 then shiftOver (tl q) else q)"
  by pat_completeness auto
termination
  by (relation "measure length") auto

declare shiftOver.simps [simp del]

text \<open>
  The observation \<open>pushStart\<close> appends; \<open>now\<close> is the value of \<open>Date.now()\<close>
  at the call.
\<close>

definition newStart :: "int \<Rightarrow> jv \<Rightarrow> jv \<Rightarrow> start" where
  "newStart now toolName params =
     \<lparr>tsMs = now, summary = summarize toolName params,
      paths = pickPaths params, url = pickUrl params\<rparr>"

definition pushStart :: "starts \<Rightarrow> int \<Rightarrow> jv \<Rightarrow> jv \<Rightarrow> jv \<Rightarrow> starts" where
  "pushStart recentStarts now sessionKey toolName params =
     (if \<not> truthy sessionKey \<or> \<not> truthy toolName then recentStarts
      else
        let byTool = (case recentStarts sessionKey of Some m \<Rightarrow> m | None \<Rightarrow> Map.empty);
            q = (case byTool toolName of Some q \<Rightarrow> q | None \<Rightarrow> []);
            q' = shiftOver (q @ [newStart now toolName params])
        in recentStarts(sessionKey \<mapsto> byTool(toolName \<mapsto> q')))"

text \<open>\<open>while (q.length && (now - q[0].tsMs) > maxAgeMs) q.shift()\<close>\<close>

fun dropTooOld :: "int \<Rightarrow> int \<Rightarrow> start list \<Rightarrow> start list" where
  "dropTooOld now maxAgeMs [] = []"
| "dropTooOld now maxAgeMs (s # q) =
     (if now - tsMs s > maxAgeMs then dropTooOld now maxAgeMs q else s # q)"

text \<open>
  The result is the observation returned (\<open>None\<close> for \<open>undefined\<close>) and the
  map after the in-place shifts of the queue.
\<close>

definition popRecentStart :: "starts \<Rightarrow> int \<Rightarrow> jv \<Rightarrow> jv \<Rightarrow> int \<Rightarrow> start option \<times> starts" where
  "popRecentStart recentStarts now sessionKey toolName maxAgeMs =
     (case recentStarts sessionKey of
        None \<Rightarrow> (None, recentStarts)
      | Some byTool \<Rightarrow>
          (case byTool toolName of
             None \<Rightarrow> (None, recentStarts)
           | Some q \<Rightarrow>
               if q = [] then (None, recentStarts)
               else
                 (case dropTooOld now maxAgeMs q of
                    [] \<Rightarrow> (None, recentStarts(sessionKey \<mapsto> byTool(toolName \<mapsto> [])))
                  | s # q' \<Rightarrow> (Some s, recentStarts(sessionKey \<mapsto> byTool(toolName \<mapsto> q'))))))"

definition defaultMaxAgeMs :: int where
  "defaultMaxAgeMs = 30000"

text \<open>The queue of a (session, tool) pair; an absent one holds nothing.\<close>

definition queue_of :: "starts \<Rightarrow> jv \<Rightarrow> jv \<Rightarrow> start list" where
  "queue_of recentStarts sessionKey toolName =
     (case recentStarts sessionKey of
        None \<Rightarrow> []
      | Some byTool \<Rightarrow> (case byTool toolName of None \<Rightarrow> [] | Some q \<Rightarrow> q))"

section \<open>Identity maps and resolver\<close>

text \<open>
  \<open>loadSessionMetaMap\<close>. The argument is what \<open>JSON.parse(fs.readFileSync(file))\<close>
  gives, \<open>None\<close> when either throws. The result is the object \<open>out\<close>.
\<close>

definition metaEntry :: "jv \<Rightarrow> jv" where
  "metaEntry info = JObj
     [(''label'', js_or (get_prop info ''label'')
                   (js_or (get_prop info ''displayName'')
                     (js_or (get_prop info ''key'') (JStr [])))),
      (''channel'', js_or (get_prop info ''channel'') JNull),
      (''lastTo'', js_or (get_prop info ''lastTo'') JNull)]"

definition loadSessionMetaMap :: "jv option \<Rightarrow> jv" where
  "loadSessionMetaMap file =
     (case file of
        None \<Rightarrow> JObj []
      | Some obj \<Rightarrow>
          (let sessions = js_or (get_prop obj ''sessions'') (JObj [])
           in JObj (map (\<lambda>(sessionId, info). (sessionId, metaEntry info)) (object_entries sessions))))"

text \<open>\<open>m && Object.keys(m).length\<close>\<close>

definition nonEmptyMap :: "jv \<Rightarrow> bool" where
  "nonEmptyMap m = (truthy m \<and> object_entries m \<noteq> [])"

record maps =
  sessionMap :: jv
  sessionMetaMap :: jv
  cronJobNameMap :: jv

text \<open>
  \<open>refreshSessionMaps\<close>. \<open>nextSessionMap\<close> and \<open>nextCronMap\<close> are the results of
  \<open>loadSessionMap\<close> and \<open>loadCronJobNameMap\<close> (each \<open>{}\<close> on failure), \<open>metaFile\<close>
  is the session-meta file as read by \<open>loadSessionMetaMap\<close>.
\<close>

definition refreshSessionMaps :: "maps \<Rightarrow> jv \<Rightarrow> jv option \<Rightarrow> jv \<Rightarrow> maps" where
  "refreshSessionMaps m nextSessionMap metaFile nextCronMap =
     (let m1 = (if nonEmptyMap nextSessionMap then m\<lparr>sessionMap := nextSessionMap\<rparr> else m);
          nextMeta = loadSessionMetaMap metaFile;
          m2 = (if nonEmptyMap nextMeta then m1\<lparr>sessionMetaMap := nextMeta\<rparr> else m1)
      in (if nonEmptyMap nextCronMap then m2\<lparr>cronJobNameMap := nextCronMap\<rparr> else m2))"

text \<open>\<open>sk.split(":cron:")[1]\<close>, for \<open>sk\<close> that includes the separator.\<close>

fun before_sep :: "string \<Rightarrow> string \<Rightarrow> string" where
  "before_sep sep [] = []"
| "before_sep sep (c # cs) =
     (if take (length sep) (c # cs) = sep then [] else c # before_sep sep cs)"

fun after_sep :: "string \<Rightarrow> string \<Rightarrow> string" where
  "after_sep sep [] = []"
| "after_sep sep (c # cs) =
     (if take (length sep) (c # cs) = sep then drop (length sep) (c # cs) else after_sep sep cs)"

definition cronJobId :: "string \<Rightarrow> string" where
  "cronJobId sk = before_sep '':cron:'' (after_sep '':cron:'' sk)"

definition metaLabel :: "maps \<Rightarrow> jv \<Rightarrow> jv" where
  "metaLabel m sessionId = get_prop (get_prop (sessionMetaMap m) (to_string sessionId)) ''label''"

text \<open>
  \<open>resolveLabel\<close>; returns the label and the maps, which the one-shot reload may
  have replaced.
\<close>

definition resolveLabel :: "maps \<Rightarrow> jv option \<Rightarrow> jv \<Rightarrow> jv \<Rightarrow> jv \<Rightarrow> jv \<times> maps" where
  "resolveLabel m metaFile sessionKey sessionId fallback =
     (if truthy sessionId \<and> truthy (metaLabel m sessionId) then (metaLabel m sessionId, m)
      else
        let sk = to_string (js_or sessionKey (JStr []));
            name = (if str_includes sk '':cron:''
                    then get_prop (cronJobNameMap m) (cronJobId sk) else JUndef)
        in if truthy name then (JStr (''cron:'' @ to_string name), m)
           else
             let next = loadSessionMetaMap metaFile;
                 m' = (if nonEmptyMap next then m\<lparr>sessionMetaMap := next\<rparr> else m)
             in if nonEmptyMap next \<and> truthy sessionId \<and> truthy (metaLabel m' sessionId)
                then (metaLabel m' sessionId, m')
                else (fallback, m'))"

definition resolveChannel :: "maps \<Rightarrow> jv \<Rightarrow> jv \<Rightarrow> jv \<Rightarrow> jv" where
  "resolveChannel m sessionKey sessionId fallback =
     (let ch = get_prop (get_prop (sessionMetaMap m) (to_string sessionId)) ''channel'';
          sk = to_string (js_or sessionKey (JStr []));
          mainCh = get_prop (get_prop (sessionMap m) sk) ''channel''
      in if truthy sessionId \<and> truthy ch then ch
         else if sk = ''agent:main:main'' \<and> truthy mainCh then mainCh
         else if str_includes sk '':cron:'' then JStr ''cron''
         else fallback)"


section \<open>Ledger\<close>

subsection \<open>JSON.stringify\<close>

definition hex_digit :: "nat \<Rightarrow> char" where
  "hex_digit d = (if d < 10 then char_of (48 + d) else char_of (87 + d))"

definition escape_char :: "char \<Rightarrow> string" where
  "escape_char c =
     (let n = (of_char c :: nat) in
      if c = CHR ''\"'' then [CHR 0x5C, CHR ''\"'']
      else if n = 0x5C then [CHR 0x5C, CHR 0x5C]
      else if n = 8 then [CHR 0x5C, CHR ''b'']
      else if n = 9 then [CHR 0x5C, CHR ''t'']
      else if n = 10 then [CHR 0x5C, CHR ''n'']
      else if n = 12 then [CHR 0x5C, CHR ''f'']
      else if n = 13 then [CHR 0x5C, CHR ''r'']
      else if n < 32 then [CHR 0x5C, CHR ''u'', CHR ''0'', CHR ''0'', hex_digit (n div 16), hex_digit (n mod 16)]
      else [c])"

definition quote :: "string \<Rightarrow> string" where
  "quote s = CHR ''\"'' # concat (map escape_char s) @ [CHR ''\"'']"

fun commaSep :: "string list \<Rightarrow> string" where
  "commaSep [] = []"
| "commaSep [x] = x"
| "commaSep (x # y # zs) = x @ CHR '','' # commaSep (y # zs)"

text \<open>
  \<open>None\<close> is the result \<open>undefined\<close> (the value is left out of an object and
  written \<open>null\<close> in an array); \<open>JOther\<close> is serialised as a function is.
\<close>

fun stringify :: "jv \<Rightarrow> string option"
  and stringifyElems :: "jv list \<Rightarrow> string list"
  and stringifyProps :: "(string \<times> jv) list \<Rightarrow> string list"
where
  "stringify JUndef = None"
| "stringify (JOther s) = None"
| "stringify JNull = Some ''null''"
| "stringify (JBool b) = Some (if b then ''true'' else ''false'')"
| "stringify (JNum n) = Some (show_int n)"
| "stringify (JStr s) = Some (quote s)"
| "stringify (JArr vs) = Some (CHR ''['' # commaSep (stringifyElems vs) @ '']'')"
| "stringify (JObj kvs) = Some (CHR ''{'' # commaSep (stringifyProps kvs) @ ''}'')"
| "stringifyElems [] = []"
| "stringifyElems (v # vs) =
     (case stringify v of None \<Rightarrow> ''null'' | Some t \<Rightarrow> t) # stringifyElems vs"
| "stringifyProps [] = []"
| "stringifyProps ((k, v) # rest) =
     (case stringify v of
        None \<Rightarrow> stringifyProps rest
      | Some t \<Rightarrow> (quote k @ CHR '':'' # t) # stringifyProps rest)"

text \<open>The line \<open>JSON.stringify(entry) + "\n"\<close>.\<close>

definition ledgerLine :: "jv \<Rightarrow> string" where
  "ledgerLine entry = (case stringify entry of None \<Rightarrow> ''undefined'' | Some t \<Rightarrow> t)"

text \<open>
  The ledger file is its text, \<open>None\<close> while it cannot be read. \<open>appendOk\<close> says
  whether \<open>fs.appendFileSync\<close> succeeds; a failure is logged and leaves the file.
\<close>

definition emitLedger :: "string option \<Rightarrow> bool \<Rightarrow> jv \<Rightarrow> string option" where
  "emitLedger file appendOk entry =
     (if appendOk
      then Some ((case file of None \<Rightarrow> [] | Some txt \<Rightarrow> txt) @ ledgerLine entry @ [CHR 0x0A])
      else file)"

subsection \<open>Reading the tail\<close>

text \<open>\<open>txt.split(/\r?\n/)\<close>\<close>

fun splitLines :: "string \<Rightarrow> string list" where
  "splitLines [] = [[]]"
| "splitLines (c # cs) =
     (if c = CHR 0x0D \<and> cs \<noteq> [] \<and> hd cs = CHR 0x0A then [] # splitLines (tl cs)
      else if c = CHR 0x0A then [] # splitLines cs
      else (case splitLines cs of [] \<Rightarrow> [[c]] | l # ls \<Rightarrow> (c # l) # ls))"

definition parseLines :: "string \<Rightarrow> string list" where
  "parseLines txt = filter (\<lambda>l. l \<noteq> []) (splitLines txt)"

text \<open>A JavaScript number that is an integer or \<open>NaN\<close>.\<close>

datatype jsnum = NaN | Num int

definition js_max :: "jsnum \<Rightarrow> jsnum \<Rightarrow> jsnum" where
  "js_max a b = (case (a, b) of (Num x, Num y) \<Rightarrow> Num (max x y) | _ \<Rightarrow> NaN)"

definition js_min :: "jsnum \<Rightarrow> jsnum \<Rightarrow> jsnum" where
  "js_min a b = (case (a, b) of (Num x, Num y) \<Rightarrow> Num (min x y) | _ \<Rightarrow> NaN)"

definition js_sub :: "jsnum \<Rightarrow> jsnum \<Rightarrow> jsnum" where
  "js_sub a b = (case (a, b) of (Num x, Num y) \<Rightarrow> Num (x - y) | _ \<Rightarrow> NaN)"

text \<open>\<open>xs.slice(start)\<close>: \<open>NaN\<close> counts as 0, a negative start counts from the end.\<close>

definition slice_from :: "jsnum \<Rightarrow> 'a list \<Rightarrow> 'a list" where
  "slice_from start xs =
     (case start of
        NaN \<Rightarrow> xs
      | Num k \<Rightarrow> if k < 0 then drop (nat (max (int (length xs) + k) 0)) xs else drop (nat k) xs)"

definition tailLines :: "string option \<Rightarrow> jsnum \<Rightarrow> string list" where
  "tailLines file maxLines =
     (case file of
        None \<Rightarrow> []
      | Some txt \<Rightarrow>
          (let lines = parseLines txt
           in slice_from (js_max (Num 0) (js_sub (Num (int (length lines))) maxLines)) lines))"

subsection \<open>The recent-entries and export endpoints\<close>

definition is_digit :: "char \<Rightarrow> bool" where
  "is_digit c = (let n = (of_char c :: nat) in 48 \<le> n \<and> n \<le> 57)"

fun digits_val :: "nat \<Rightarrow> string \<Rightarrow> nat" where
  "digits_val acc [] = acc"
| "digits_val acc (c # cs) = digits_val (acc * 10 + (of_char c - 48)) cs"

text \<open>\<open>parseInt(s, 10)\<close>\<close>

definition parseInt :: "string \<Rightarrow> jsnum" where
  "parseInt s =
     (let t = dropWhile is_space s;
          neg = (t \<noteq> [] \<and> hd t = CHR ''-'');
          r = (if t \<noteq> [] \<and> (hd t = CHR ''-'' \<or> hd t = CHR ''+'') then tl t else t);
          ds = takeWhile is_digit r
      in if ds = [] then NaN
         else Num ((if neg then - 1 else 1) * int (digits_val 0 ds)))"

text \<open>
  The handler of \<open>api/recent\<close>: \<open>nParam\<close> is \<open>u.searchParams.get("n")\<close>
  (\<open>None\<close> for \<open>null\<close>); the result is the \<open>lines\<close> of the response.
\<close>

definition api_recent :: "string option \<Rightarrow> string option \<Rightarrow> string list" where
  "api_recent file nParam =
     (let raw = (case nParam of None \<Rightarrow> ''200'' | Some v \<Rightarrow> if v = [] then ''200'' else v);
          n = js_min (Num 2000) (js_max (Num 1) (parseInt raw))
      in tailLines file n)"

text \<open>\<open>a < b\<close> on strings: code units compared from the left, a proper prefix is smaller.\<close>

fun str_lt :: "string \<Rightarrow> string \<Rightarrow> bool" where
  "str_lt [] [] = False"
| "str_lt [] (y # ys) = True"
| "str_lt (x # xs) [] = False"
| "str_lt (x # xs) (y # ys) =
     ((of_char x :: nat) < of_char y \<or> (x = y \<and> str_lt xs ys))"

text \<open>
  The streaming branch of \<open>api/export\<close>: \<open>lines\<close> are the lines \<open>readline\<close> yields,
  \<open>parse\<close> is \<open>JSON.parse\<close> (\<open>None\<close> when it throws), \<open>sinceTs\<close> the query
  parameter. The result lists the chunks written to the response.
\<close>

definition tooEarly :: "(string \<Rightarrow> jv option) \<Rightarrow> string \<Rightarrow> string \<Rightarrow> bool" where
  "tooEarly parse sinceTs line =
     (case parse line of
        None \<Rightarrow> False
      | Some obj \<Rightarrow> (case get_prop obj ''ts'' of JStr ts \<Rightarrow> str_lt ts sinceTs | _ \<Rightarrow> False))"

fun exportStream :: "(string \<Rightarrow> jv option) \<Rightarrow> string option \<Rightarrow> string list \<Rightarrow> string list" where
  "exportStream parse sinceTs [] = []"
| "exportStream parse sinceTs (line # rest) =
     (if line = [] then exportStream parse sinceTs rest
      else if (case sinceTs of None \<Rightarrow> False | Some since \<Rightarrow> since \<noteq> [] \<and> tooEarly parse since line)
      then exportStream parse sinceTs rest
      else (line @ [CHR 0x0A]) # exportStream parse sinceTs rest)"

text \<open>
  The whole handler: with a non-empty \<open>n\<close> the tail is written and \<open>sinceTs\<close> is
  not looked at. \<open>streamFailed\<close> says that reading stopped with an error after
  \<open>lines\<close>.
\<close>

definition api_export ::
  "(string \<Rightarrow> jv option) \<Rightarrow> string option \<Rightarrow> string option \<Rightarrow> string option \<Rightarrow> string list \<Rightarrow> bool \<Rightarrow> string list" where
  "api_export parse file nRaw sinceTs lines streamFailed =
     (case (case nRaw of None \<Rightarrow> None | Some v \<Rightarrow> if v = [] then None else Some v) of
        Some v \<Rightarrow>
          (let p = (case parseInt v of NaN \<Rightarrow> Num 0 | Num k \<Rightarrow> Num k);
               n = js_max (Num 1) (js_min (Num 500000) p)
           in map (\<lambda>l. l @ [CHR 0x0A]) (tailLines file n))
      | None \<Rightarrow>
          exportStream parse sinceTs lines @ (if streamFailed then [[CHR 0x0A]] else []))"


section \<open>Event pipeline\<close>

record state =
  idMaps :: maps
  recentStarts :: starts
  ledger :: "string option"

text \<open>
  What a handler reads from outside while it runs: \<open>Date.now()\<close>, \<open>nowIso()\<close>,
  the session-meta file as the one-shot reload would read it, and whether the
  append succeeds.
\<close>

record env =
  nowMs :: int
  nowIso :: string
  metaFile :: "jv option"
  appendOk :: bool

definition sessionEntry :: "jv \<Rightarrow> jv \<Rightarrow> jv \<Rightarrow> jv \<Rightarrow> jv" where
  "sessionEntry key sid label channel =
     JObj [(''key'', key), (''id'', sid), (''label'', label), (''channel'', channel)]"

definition hookAgent :: "config \<Rightarrow> jv \<Rightarrow> jv" where
  "hookAgent cfg hookCtx =
     (let a = get_prop hookCtx ''agentId''
      in JObj [(''id'', js_or a (JStr ''main'')),
               (''name'', if a = JStr (cfg_agentId cfg) then JStr (cfg_agentDisplayName cfg)
                          else js_or a (JStr (cfg_agentId cfg)))])"

text \<open>\<open>api.on("before_tool_call", ...)\<close>\<close>

definition before_tool_call :: "config \<Rightarrow> env \<Rightarrow> state \<Rightarrow> jv \<Rightarrow> jv \<Rightarrow> state" where
  "before_tool_call cfg e st event hookCtx =
     (let sessionKey = get_prop hookCtx ''sessionKey'';
          toolName = get_prop event ''toolName'';
          params = sanitize cfg (js_or (get_prop event ''params'') (JObj []))
      in st\<lparr>recentStarts := pushStart (recentStarts st) (nowMs e) sessionKey toolName params\<rparr>)"

text \<open>
  The record built by the \<open>after_tool_call\<close> handler, with the maps as
  \<open>resolveLabel\<close> leaves them.
\<close>

definition after_entry :: "config \<Rightarrow> env \<Rightarrow> maps \<Rightarrow> jv \<Rightarrow> jv \<Rightarrow> jv \<times> maps" where
  "after_entry cfg e m event hookCtx =
     (let sessionKey = get_prop hookCtx ''sessionKey'';
          toolName = get_prop event ''toolName'';
          params = sanitize cfg (js_or (get_prop event ''params'') (JObj []));
          sessionInfo = (if truthy sessionKey then get_prop (sessionMap m) (to_string sessionKey) else JUndef);
          sessionId = get_prop sessionInfo ''sessionId'';
          (label, m') = resolveLabel m (metaFile e) sessionKey sessionId (get_prop sessionInfo ''label'');
          channel = resolveChannel m' sessionKey sessionId (get_prop sessionInfo ''channel'')
      in (JObj
            [(''ts'', JStr (nowIso e)),
             (''source'', JStr ''plugin''),
             (''agent'', hookAgent cfg hookCtx),
             (''session'', sessionEntry sessionKey sessionId label channel),
             (''tool'', toolName),
             (''phase'', JStr ''done''),
             (''fingerprint'', JStr (to_string (js_or sessionKey (JStr [])) @ ''|after|''
                 @ to_string toolName @ ''|'' @ to_string (summarize toolName params))),
             (''summary'', summarize toolName params),
             (''details'', JObj
                [(''durationMs'', get_prop event ''durationMs''),
                 (''error'', get_prop event ''error''),
                 (''paths'', JArr (map JStr (pickPaths params))),
                 (''url'', pickUrl params),
                 (''result'', JStr (if truthy (get_prop event ''error'') then ''error'' else ''ok''))])],
          m'))"

definition after_tool_call :: "config \<Rightarrow> env \<Rightarrow> state \<Rightarrow> jv \<Rightarrow> jv \<Rightarrow> jv \<times> state" where
  "after_tool_call cfg e st event hookCtx =
     (let (entry, m') = after_entry cfg e (idMaps st) event hookCtx
      in (entry, st\<lparr>idMaps := m', ledger := emitLedger (ledger st) (appendOk e) entry\<rparr>))"

text \<open>The record built by the \<open>tool_result_persist\<close> handler.\<close>

definition persist_entry ::
  "config \<Rightarrow> env \<Rightarrow> maps \<Rightarrow> starts \<Rightarrow> jv \<Rightarrow> jv \<Rightarrow> jv \<times> maps \<times> starts" where
  "persist_entry cfg e m rs event hookCtx =
     (let sessionKey = get_prop hookCtx ''sessionKey'';
          sessionInfo = (if truthy sessionKey then get_prop (sessionMap m) (to_string sessionKey) else JUndef);
          sessionId = get_prop sessionInfo ''sessionId'';
          (label, m') = resolveLabel m (metaFile e) sessionKey sessionId (get_prop sessionInfo ''label'');
          channel = resolveChannel m' sessionKey sessionId (get_prop sessionInfo ''channel'');
          msg = js_or (get_prop (get_prop event ''message'') ''message'')
                  (js_or (get_prop event ''message'') (JObj []));
          toolName = js_or (get_prop msg ''toolName'')
                       (js_or (get_prop event ''toolName'')
                         (js_or (get_prop hookCtx ''toolName'') (JStr [])));
          isError = truthy (get_prop msg ''isError'');
          durationMs = get_prop (get_prop msg ''details'') ''durationMs'';
          (started, rs') = popRecentStart rs (nowMs e) sessionKey toolName defaultMaxAgeMs
      in (JObj
            [(''ts'', JStr (nowIso e)),
             (''source'', JStr ''plugin''),
             (''agent'', hookAgent cfg hookCtx),
             (''session'', sessionEntry sessionKey sessionId label channel),
             (''tool'', toolName),
             (''phase'', JStr ''done''),
             (''fingerprint'', js_or (get_prop hookCtx ''toolCallId'') (get_prop msg ''toolCallId'')),
             (''summary'', js_or (case started of None \<Rightarrow> JUndef | Some s \<Rightarrow> summary s) toolName),
             (''details'', JObj
                [(''durationMs'', durationMs),
                 (''paths'', (case started of None \<Rightarrow> JUndef | Some s \<Rightarrow> JArr (map JStr (paths s)))),
                 (''url'', (case started of None \<Rightarrow> JUndef | Some s \<Rightarrow> url s)),
                 (''error'', if isError then JStr ''tool error'' else JUndef),
                 (''result'', JStr (if isError then ''error'' else ''ok''))])],
          m', rs'))"

definition tool_result_persist :: "config \<Rightarrow> env \<Rightarrow> state \<Rightarrow> jv \<Rightarrow> jv \<Rightarrow> jv \<times> state" where
  "tool_result_persist cfg e st event hookCtx =
     (let (entry, m', rs') = persist_entry cfg e (idMaps st) (recentStarts st) event hookCtx
      in (entry, st\<lparr>idMaps := m', recentStarts := rs',
                     ledger := emitLedger (ledger st) (appendOk e) entry\<rparr>))"

text \<open>
  The handler of \<open>api/note\<close>. \<open>payload\<close> is what \<open>JSON.parse(body || "{}")\<close>
  gives, \<open>None\<close> when it throws. The outcome is the reply (status and body),
  or \<open>Raised\<close> when reading \<open>payload.text\<close> throws (a \<open>null\<close> payload).
\<close>

datatype outcome = Replied nat string | Raised

definition note_entry :: "config \<Rightarrow> env \<Rightarrow> maps \<Rightarrow> jv \<Rightarrow> string \<Rightarrow> jv \<times> maps" where
  "note_entry cfg e m payload text =
     (let sessionKey = (if truthy (get_prop payload ''sessionKey'')
                        then JStr (to_string (get_prop payload ''sessionKey'')) else JUndef);
          sessionInfo = (if truthy sessionKey then get_prop (sessionMap m) (to_string sessionKey) else JUndef);
          sessionId = get_prop sessionInfo ''sessionId'';
          (label, m') = resolveLabel m (metaFile e) sessionKey sessionId (get_prop sessionInfo ''label'');
          channel = resolveChannel m' sessionKey sessionId (get_prop sessionInfo ''channel'')
      in (JObj
            [(''ts'', JStr (nowIso e)),
             (''source'', JStr ''plugin''),
             (''agent'', JObj [(''id'', JStr (cfg_agentId cfg)), (''name'', JStr (cfg_agentDisplayName cfg))]),
             (''session'', sessionEntry sessionKey sessionId label channel),
             (''tool'', JStr ''note''),
             (''summary'', JStr text),
             (''details'', JObj [(''result'', JStr ''ok'')])],
          m'))"

definition api_note ::
  "config \<Rightarrow> env \<Rightarrow> state \<Rightarrow> string \<Rightarrow> jv option \<Rightarrow> outcome \<times> jv option \<times> state" where
  "api_note cfg e st method body =
     (if \<not> cfg_enableNotes cfg then (Replied 403 ''notes disabled'', None, st)
      else if method \<noteq> ''POST'' then (Replied 405 ''method not allowed'', None, st)
      else
        let payload = (case body of None \<Rightarrow> JObj [] | Some p \<Rightarrow> p)
        in if payload = JNull then (Raised, None, st)
           else
             let text = trim (to_string (js_or (get_prop payload ''text'') (JStr [])))
             in if text = [] then (Replied 400 ''missing text'', None, st)
                else
                  let (entry, m') = note_entry cfg e (idMaps st) payload text
                  in (Replied 200 ''{\"ok\":true}'', Some entry,
                      st\<lparr>idMaps := m', ledger := emitLedger (ledger st) (appendOk e) entry\<rparr>))"

subsection \<open>Runs of the service\<close>

datatype call =
    BeforeToolCall jv jv
  | AfterToolCall jv jv
  | ToolResultPersist jv jv
  | PostNote string "jv option"
  | Refresh jv jv

text \<open>
  One call of a handler or of the refresh timer, with what it reads from outside.
  The result is the state after it and the record it handed to \<open>emitLedger\<close>, if
  any.
\<close>

fun step :: "config \<Rightarrow> state \<Rightarrow> env \<times> call \<Rightarrow> jv option \<times> state" where
  "step cfg st (e, BeforeToolCall event hookCtx) = (None, before_tool_call cfg e st event hookCtx)"
| "step cfg st (e, AfterToolCall event hookCtx) =
     (let (entry, st') = after_tool_call cfg e st event hookCtx in (Some entry, st'))"
| "step cfg st (e, ToolResultPersist event hookCtx) =
     (let (entry, st') = tool_result_persist cfg e st event hookCtx in (Some entry, st'))"
| "step cfg st (e, PostNote method body) =
     (let (r, entry, st') = api_note cfg e st method body in (entry, st'))"
| "step cfg st (e, Refresh nextSessionMap nextCronMap) =
     (None, st\<lparr>idMaps := refreshSessionMaps (idMaps st) nextSessionMap (metaFile e) nextCronMap\<rparr>)"

text \<open>The records handed to \<open>emitLedger\<close> during a run, oldest first, and the final state.\<close>

fun run :: "config \<Rightarrow> state \<Rightarrow> (env \<times> call) list \<Rightarrow> jv list \<times> state" where
  "run cfg st [] = ([], st)"
| "run cfg st (c # cs) =
     (let (entry, st') = step cfg st c;
          (entries, st'') = run cfg st' cs
      in ((case entry of None \<Rightarrow> [] | Some x \<Rightarrow> [x]) @ entries, st''))"

text \<open>The state after \<open>start\<close>: the maps as first loaded, no pending start.\<close>

definition initState :: "maps \<Rightarrow> string option \<Rightarrow> state" where
  "initState m file = \<lparr>idMaps = m, recentStarts = Map.empty, ledger = file\<rparr>"

section \<open>Notions used to state the properties\<close>

text \<open>A text without line feed and carriage return.\<close>

definition noBreak :: "string \<Rightarrow> bool" where
  "noBreak s = (CHR 0x0A \<notin> set s \<and> CHR 0x0D \<notin> set s)"

text \<open>The ledger file after the given records were appended to an empty file.\<close>

definition ledgerText :: "jv list \<Rightarrow> string" where
  "ledgerText entries = concat (map (\<lambda>e. ledgerLine e @ [CHR 0x0A]) entries)"




fun plain :: "jv \<Rightarrow> bool"
  and plainEntries :: "(string \<times> jv) list \<Rightarrow> bool"
  and plainElems :: "jv list \<Rightarrow> bool"
where
  "plain (JOther s) = False"
| "plain (JArr vs) = plainElems vs"
| "plain (JObj kvs) = plainEntries kvs"
| "plain JUndef = True"
| "plain JNull = True"
| "plain (JBool b) = True"
| "plain (JNum n) = True"
| "plain (JStr s) = True"
| "plainEntries [] = True"
| "plainEntries ((k, v) # rest) = (plain v \<and> plainEntries rest)"
| "plainElems [] = True"
| "plainElems (v # vs) = (plain v \<and> plainElems vs)"








text \<open>No queue of the correlator holds more than 40 observations.\<close>

definition capped :: "starts \<Rightarrow> bool" where
  "capped rs = (\<forall>sk tn. length (queue_of rs sk tn) \<le> 40)"

subsection \<open>An example run\<close>




text \<open>A queue that holds 40 starts, of the times 1 to 40.\<close>

definition exampleFull :: starts where
  "exampleFull = [JStr ''s1'' \<mapsto>
     [JStr ''exec'' \<mapsto> map (\<lambda>t. newStart (int t) (JStr ''exec'') (JObj [])) [1 ..< 41]]]"

text \<open>
  A stand-in for \<open>JSON.parse\<close> on three ledger lines: one record before and one
  after February 2025, and a line that does not parse.
\<close>

definition exampleParse :: "string \<Rightarrow> jv option" where
  "exampleParse line =
     (if line = ''old'' then Some (JObj [(''ts'', JStr ''2025-01-01'')])
      else if line = ''new'' then Some (JObj [(''ts'', JStr ''2025-03-01'')])
      else None)"

text \<open>Maps as loaded from a session-meta file with one session.\<close>

definition exampleLoaded :: maps where
  "exampleLoaded = \<lparr>sessionMap = JObj [],
     sessionMetaMap = loadSessionMetaMap (Some (JObj [(''sessions'',
        JObj [(''id1'', JObj [(''label'', JStr ''Danilo''), (''channel'', JStr ''telegram'')])])])),
     cronJobNameMap = JObj []\<rparr>"

section \<open>Properties\<close>

subsection \<open>Decimal numerals\<close>

lemma digits_val_app: "digits_val acc (xs @ ys) = digits_val (digits_val acc xs) ys"
  by (induction xs arbitrary: acc) auto

lemma digit_char_val: "d < 10 \<Longrightarrow> (of_char (digit_char d) :: nat) = 48 + d"
  by (simp add: digit_char_def)

lemma digits_val_decimal: "digits_val 0 (decimal n) = n"
proof (induction n rule: decimal.induct)
  case (1 n)
  show ?case
  proof (cases "n < 10")
    case True
    then show ?thesis by (subst decimal.simps) (simp add: digit_char_val)
  next
    case False
    then have "digits_val 0 (decimal (n div 10)) = n div 10" using 1 by simp
    with False show ?thesis
      by (subst decimal.simps) (simp add: digits_val_app digit_char_val)
  qed
qed



subsection \<open>The sanitizer produces sanitized data\<close>










lemma sanitize_keys:
  "set (keysDeep (sanitizeAny ms sens v)) \<subseteq> {k. \<not> sens k}"
  "set (keysDeepEntries (sanitizeEntries ms sens kvs)) \<subseteq> {k. \<not> sens k}"
proof (induction ms sens v and ms sens kvs rule: sanitizeAny_sanitizeEntries.induct)
  case (6 ms sens vs)
  have "set (keysDeepElems (map (sanitizeAny ms sens) vs)) \<subseteq> {k. \<not> sens k}"
    using 6 by (induction vs) auto
  then show ?case by simp
qed auto

subsection \<open>The correlator queue\<close>

lemma shiftOver_drop: "shiftOver q = drop (length q - 40) q"
proof (induction q rule: shiftOver.induct)
  case (1 q)
  show ?case
  proof (cases "length q > 40")
    case True
    then obtain x xs where q: "q = x # xs" by (cases q) auto
    from True 1 have "shiftOver (tl q) = drop (length (tl q) - 40) (tl q)" by simp
    with True q show ?thesis
      by (subst shiftOver.simps) (simp add: Suc_diff_le drop_Cons')
  next
    case False
    then show ?thesis by (subst shiftOver.simps) simp
  qed
qed

lemma dropTooOld_dropWhile:
  "dropTooOld now maxAgeMs q = dropWhile (\<lambda>s. now - tsMs s > maxAgeMs) q"
  by (induction q) auto

lemma queue_of_pushStart:
  "truthy sessionKey \<Longrightarrow> truthy toolName \<Longrightarrow>
   queue_of (pushStart rs now sessionKey toolName params) sessionKey toolName
     = shiftOver (queue_of rs sessionKey toolName @ [newStart now toolName params])"
  by (simp add: pushStart_def queue_of_def Let_def split: option.splits)

lemma queue_of_pushStart_other:
  "(sk, tn) \<noteq> (sessionKey, toolName) \<Longrightarrow>
   queue_of (pushStart rs now sessionKey toolName params) sk tn = queue_of rs sk tn"
  by (auto simp add: pushStart_def queue_of_def Let_def split: option.splits)

lemma popRecentStart_fst:
  "fst (popRecentStart rs now sessionKey toolName maxAgeMs)
     = (case dropTooOld now maxAgeMs (queue_of rs sessionKey toolName) of [] \<Rightarrow> None | s # q \<Rightarrow> Some s)"
  by (simp add: popRecentStart_def queue_of_def split: option.splits list.splits)

lemma popRecentStart_queue:
  "queue_of (snd (popRecentStart rs now sessionKey toolName maxAgeMs)) sessionKey toolName
     = drop 1 (dropTooOld now maxAgeMs (queue_of rs sessionKey toolName))"
  by (auto simp add: popRecentStart_def queue_of_def split: option.splits list.splits)

lemma popRecentStart_queue_other:
  "(sk, tn) \<noteq> (sessionKey, toolName) \<Longrightarrow>
   queue_of (snd (popRecentStart rs now sessionKey toolName maxAgeMs)) sk tn = queue_of rs sk tn"
  by (auto simp add: popRecentStart_def queue_of_def split: option.splits list.splits)

lemma shiftOver_short: "length q \<le> 40 \<Longrightarrow> shiftOver q = q"
  by (simp add: shiftOver_drop)

subsection \<open>Pending starts and records hold sanitized data\<close>













subsection \<open>The cap holds in every run\<close>

lemma pushStart_capped: "capped rs \<Longrightarrow> capped (pushStart rs now sessionKey toolName params)"
  unfolding capped_def
proof (intro allI)
  fix sk tn
  assume a: "\<forall>sk tn. length (queue_of rs sk tn) \<le> 40"
  show "length (queue_of (pushStart rs now sessionKey toolName params) sk tn) \<le> 40"
  proof (cases "truthy sessionKey \<and> truthy toolName")
    case True
    show ?thesis
    proof (cases "(sk, tn) = (sessionKey, toolName)")
      case True
      with \<open>truthy sessionKey \<and> truthy toolName\<close> show ?thesis
        by (simp add: queue_of_pushStart shiftOver_drop)
    next
      case False
      with a show ?thesis by (simp add: queue_of_pushStart_other)
    qed
  next
    case False
    then have "pushStart rs now sessionKey toolName params = rs" by (auto simp: pushStart_def)
    with a show ?thesis by simp
  qed
qed

lemma popRecentStart_capped:
  "capped rs \<Longrightarrow> capped (snd (popRecentStart rs now sessionKey toolName maxAgeMs))"
  unfolding capped_def
proof (intro allI)
  fix sk tn
  assume a: "\<forall>sk tn. length (queue_of rs sk tn) \<le> 40"
  show "length (queue_of (snd (popRecentStart rs now sessionKey toolName maxAgeMs)) sk tn) \<le> 40"
  proof (cases "(sk, tn) = (sessionKey, toolName)")
    case True
    have "length (dropWhile (\<lambda>s. now - tsMs s > maxAgeMs) (queue_of rs sessionKey toolName))
            \<le> length (queue_of rs sessionKey toolName)"
      by (rule length_dropWhile_le)
    moreover have "length (queue_of rs sessionKey toolName) \<le> 40" using a by blast
    ultimately show ?thesis
      using True by (simp add: popRecentStart_queue dropTooOld_dropWhile)
  next
    case False
    with a show ?thesis by (simp add: popRecentStart_queue_other)
  qed
qed

lemma step_capped: "capped (recentStarts st) \<Longrightarrow> capped (recentStarts (snd (step cfg st c)))"
proof -
  assume a: "capped (recentStarts st)"
  obtain e k where c: "c = (e, k)" by (cases c)
  show ?thesis
  proof (cases k)
    case (BeforeToolCall event hookCtx)
    with a c show ?thesis by (simp add: before_tool_call_def Let_def pushStart_capped)
  next
    case (AfterToolCall event hookCtx)
    with a c show ?thesis by (simp add: after_tool_call_def Let_def split: prod.splits)
  next
    case (ToolResultPersist event hookCtx)
    have "snd (snd (persist_entry cfg e (idMaps st) (recentStarts st) event hookCtx))
        = snd (popRecentStart (recentStarts st) (nowMs e) (get_prop hookCtx ''sessionKey'')
            (js_or (get_prop (js_or (get_prop (get_prop event ''message'') ''message'')
                  (js_or (get_prop event ''message'') (JObj []))) ''toolName'')
                       (js_or (get_prop event ''toolName'')
                         (js_or (get_prop hookCtx ''toolName'') (JStr [])))) defaultMaxAgeMs)"
      by (simp add: persist_entry_def Let_def split: prod.splits)
    then have "capped (snd (snd (persist_entry cfg e (idMaps st) (recentStarts st) event hookCtx)))"
      using a by (simp add: popRecentStart_capped)
    with c ToolResultPersist show ?thesis
      by (auto simp add: tool_result_persist_def Let_def split: prod.splits)
  next
    case (PostNote mth payload)
    with a c show ?thesis by (auto simp add: api_note_def Let_def split: prod.splits)
  next
    case (Refresh x y)
    with a c show ?thesis by simp
  qed
qed

lemma run_capped: "capped (recentStarts st) \<Longrightarrow> capped (recentStarts (snd (run cfg st calls)))"
proof (induction calls arbitrary: st)
  case Nil
  then show ?case by simp
next
  case (Cons c calls)
  have "capped (recentStarts (snd (run cfg (snd (step cfg st c)) calls)))"
    using Cons.IH [OF step_capped [OF Cons.prems]] .
  then show ?case by (auto simp add: Let_def split: prod.splits)
qed

lemma capped_init: "capped (recentStarts (initState m f))"
  by (simp add: capped_def initState_def queue_of_def)

subsection \<open>Ledger lines\<close>

lemma noBreak_simps [simp]:
  "noBreak []"
  "noBreak (c # cs) = (c \<noteq> CHR 0x0A \<and> c \<noteq> CHR 0x0D \<and> noBreak cs)"
  "noBreak (xs @ ys) = (noBreak xs \<and> noBreak ys)"
  by (auto simp: noBreak_def)

lemma digit_char_noBreak: "d < 10 \<Longrightarrow> digit_char d \<noteq> CHR 0x0A \<and> digit_char d \<noteq> CHR 0x0D"
proof -
  assume "d < 10"
  then have "(of_char (digit_char d) :: nat) = 48 + d" by (simp add: digit_char_def)
  then show ?thesis by auto
qed

lemma decimal_noBreak: "noBreak (decimal n)"
proof (induction n rule: decimal.induct)
  case (1 n)
  show ?case
  proof (cases "n < 10")
    case True
    then show ?thesis by (subst decimal.simps) (simp add: digit_char_noBreak)
  next
    case False
    with 1 show ?thesis by (subst decimal.simps) (simp add: digit_char_noBreak)
  qed
qed

lemma decimal_nonempty: "decimal n \<noteq> []"
  by (subst decimal.simps) simp

lemma show_int_noBreak: "noBreak (show_int n)"
  by (simp add: show_int_def decimal_noBreak)

lemma hex_digit_noBreak: "d < 16 \<Longrightarrow> hex_digit d \<noteq> CHR 0x0A \<and> hex_digit d \<noteq> CHR 0x0D"
proof -
  assume d: "d < 16"
  have "(of_char (hex_digit d) :: nat) = (if d < 10 then 48 + d else 87 + d)"
    using d by (simp add: hex_digit_def)
  then show ?thesis by (auto split: if_splits)
qed

lemma escape_char_noBreak: "noBreak (escape_char c)"
proof -
  have "(of_char c :: nat) mod 16 < 16" by simp
  moreover have "(of_char c :: nat) < 32 \<Longrightarrow> (of_char c :: nat) div 16 < 16" by simp
  ultimately show ?thesis
    by (auto simp: escape_char_def Let_def hex_digit_noBreak)
qed

lemma quote_noBreak: "noBreak (quote s)"
proof -
  have "noBreak (concat (map escape_char s))"
    by (induction s) (simp_all add: escape_char_noBreak)
  then show ?thesis by (simp add: quote_def)
qed

lemma commaSep_noBreak: "list_all noBreak xs \<Longrightarrow> noBreak (commaSep xs)"
  by (induction xs rule: commaSep.induct) auto

lemma stringify_noBreak:
  "\<forall>t. stringify v = Some t \<longrightarrow> noBreak t"
  "list_all noBreak (stringifyElems vs)"
  "list_all noBreak (stringifyProps kvs)"
proof (induction v and vs and kvs rule: stringify_stringifyElems_stringifyProps.induct)
qed (auto simp: show_int_noBreak quote_noBreak commaSep_noBreak split: option.splits)

lemma stringify_nonempty: "stringify v = Some t \<Longrightarrow> t \<noteq> []"
  by (cases v) (auto simp: show_int_def decimal_nonempty quote_def split: if_splits)

lemma ledgerLine_noBreak: "noBreak (ledgerLine entry)"
  using stringify_noBreak(1) [of entry] by (auto simp: ledgerLine_def split: option.splits)

lemma ledgerLine_nonempty: "ledgerLine entry \<noteq> []"
  using stringify_nonempty [of entry] by (auto simp: ledgerLine_def split: option.splits)

lemma splitLines_nonempty: "splitLines s \<noteq> []"
  by (induction s rule: splitLines.induct) (auto split: list.splits)

lemma splitLines_line:
  "noBreak l \<Longrightarrow> splitLines (l @ CHR 0x0A # rest) = l # splitLines rest"
proof (induction l)
  case Nil
  then show ?case by simp
next
  case (Cons c l)
  then show ?case by (auto split: list.splits)
qed

lemma parseLines_line:
  "noBreak l \<Longrightarrow> l \<noteq> [] \<Longrightarrow> parseLines (l @ CHR 0x0A # rest) = l # parseLines rest"
  by (simp add: parseLines_def splitLines_line)

lemma parseLines_ledgerText: "parseLines (ledgerText es) = map ledgerLine es"
proof (induction es)
  case Nil
  then show ?case by (simp add: ledgerText_def parseLines_def)
next
  case (Cons e es)
  have "ledgerText (e # es) = ledgerLine e @ CHR 0x0A # ledgerText es"
    by (simp add: ledgerText_def)
  with Cons show ?case
    by (simp add: parseLines_line ledgerLine_noBreak ledgerLine_nonempty)
qed

lemma emit_fold:
  "foldl (\<lambda>f e. emitLedger f True e) f0 es
     = (if es = [] then f0 else Some ((case f0 of None \<Rightarrow> [] | Some t \<Rightarrow> t) @ ledgerText es))"
proof (induction es arbitrary: f0)
  case Nil
  then show ?case by simp
next
  case (Cons e es)
  have "foldl (\<lambda>f e. emitLedger f True e) f0 (e # es)
      = foldl (\<lambda>f e. emitLedger f True e) (emitLedger f0 True e) es" by simp
  also have "\<dots> = (if es = [] then emitLedger f0 True e
      else Some ((case emitLedger f0 True e of None \<Rightarrow> [] | Some t \<Rightarrow> t) @ ledgerText es))"
    by (rule Cons)
  also have "\<dots> = Some ((case f0 of None \<Rightarrow> [] | Some t \<Rightarrow> t) @ ledgerText (e # es))"
    by (simp add: emitLedger_def ledgerText_def)
  finally show ?case by simp
qed

subsection \<open>Export stream and identity maps\<close>

lemma exportStream_filter:
  "exportStream parse sinceTs lines
     = map (\<lambda>l. l @ [CHR 0x0A])
         (filter (\<lambda>l. l \<noteq> [] \<and> \<not> (case sinceTs of None \<Rightarrow> False
                                     | Some since \<Rightarrow> since \<noteq> [] \<and> tooEarly parse since l)) lines)"
  by (induction lines) auto

lemma str_lt_Nil: "\<not> str_lt ts []"
  by (cases ts) auto

lemma loadSessionMetaMap_fail: "loadSessionMetaMap None = JObj []"
  by (simp add: loadSessionMetaMap_def)

lemma not_nonEmpty_empty: "\<not> nonEmptyMap (JObj [])"
  by (simp add: nonEmptyMap_def object_entries_def)

lemma parseLines_xs: "parseLines (concat (replicate n [CHR ''x'', CHR 0x0A])) = replicate n ''x''"
proof (induction n)
  case 0
  then show ?case by (simp add: parseLines_def)
next
  case (Suc n)
  then show ?case by (simp add: parseLines_def)
qed

section \<open>The claims\<close>

subsection \<open>C1: what reaches the summary and the details of a record\<close>




subsection \<open>C2: sensitive keys are dropped\<close>

text \<open>
  C2: for every value given to the sanitizer and every key that matches the
  sensitive-key pattern in force (the configured one, or the default alternation
  matched case-insensitively anywhere in the key), that key occurs nowhere in
  the sanitized output, at any nesting depth: it is dropped, not masked.
\<close>

theorem sensitive_keys_dropped:
  "dropKeysRe cfg k \<Longrightarrow> k \<notin> set (keysDeep (sanitize cfg v))"
  using sanitize_keys(1) [of "maxString cfg" "dropKeysRe cfg" v]
  by (auto simp: sanitize_def)

theorem sensitive_keys_dropped_witness:
  "dropKeysRe defaultConfig ''Authorization'' \<and>
   ''Authorization'' \<notin> set (keysDeep (sanitize defaultConfig
       (JObj [(''apiKey'', JStr ''sk-abcdef0123456789''), (''cmd'', JStr ''ls''),
         (''list'', JArr [JObj [(''Authorization'', JStr ''x''), (''n'', JNum 1)]])])))
   \<and> sanitize defaultConfig
       (JObj [(''apiKey'', JStr ''sk-abcdef0123456789''), (''cmd'', JStr ''ls''),
         (''list'', JArr [JObj [(''Authorization'', JStr ''x''), (''n'', JNum 1)]])])
      = JObj [(''cmd'', JStr ''ls''), (''list'', JArr [JObj [(''n'', JNum 1)]])]"
proof -
  have h: "dropKeysRe defaultConfig ''Authorization''" by code_simp
  have e: "sanitize defaultConfig
       (JObj [(''apiKey'', JStr ''sk-abcdef0123456789''), (''cmd'', JStr ''ls''),
         (''list'', JArr [JObj [(''Authorization'', JStr ''x''), (''n'', JNum 1)]])])
      = JObj [(''cmd'', JStr ''ls''), (''list'', JArr [JObj [(''n'', JNum 1)]])]" by code_simp
  from sensitive_keys_dropped [OF h] h e show ?thesis by blast
qed

subsection \<open>C3: long strings\<close>

text \<open>
  C3: for every string strictly longer than the configured maximum, the sanitizer
  returns the marker \<open><redacted:LEN>\<close>, where \<open>LEN\<close> is the decimal numeral of the
  string's length (it reads back as that length); the output is the same for all
  strings of that length, so it reveals the length and nothing of the content.
\<close>

theorem sanitize_long_string:
  assumes "int (length s) > maxString cfg"
  shows "sanitize cfg (JStr s) = JStr (''<redacted:'' @ decimal (length s) @ ''>'')
       \<and> digits_val 0 (decimal (length s)) = length s
       \<and> (\<forall>t. length t = length s \<longrightarrow> sanitize cfg (JStr t) = sanitize cfg (JStr s))"
  using assms
  by (simp add: sanitize_def sanitizeStr_def redacted_len_def digits_val_decimal)

theorem sanitize_long_string_witness:
  "int (length (replicate 161 CHR ''a'')) > maxString defaultConfig
   \<and> sanitize defaultConfig (JStr (replicate 161 CHR ''a'')) = JStr ''<redacted:161>''
   \<and> sanitize defaultConfig (JStr (replicate 161 CHR ''b'')) = sanitize defaultConfig (JStr (replicate 161 CHR ''a''))"
proof -
  have h: "int (length (replicate 161 CHR ''a'')) > maxString defaultConfig"
    by (simp add: maxString_def defaultConfig_def)
  have d: "decimal 161 = ''161''" by code_simp
  from sanitize_long_string [OF h] d h show ?thesis by simp
qed

subsection \<open>C4: the bound of the recent-entries endpoint\<close>

text \<open>
  C4 says that the recent-entries endpoint returns at most 2000 lines for every
  value of \<open>n\<close>, non-numeric ones included. For \<open>n=abc\<close>, \<open>parseInt\<close> gives \<open>NaN\<close>,
  which passes through \<open>Math.max\<close> and \<open>Math.min\<close>, and \<open>slice(NaN)\<close> returns the
  whole array: on a ledger of 2001 lines the endpoint returns all 2001.
\<close>

theorem recent_nan_unbounded:
  "length (api_recent (Some (concat (replicate 2001 [CHR ''x'', CHR 0x0A]))) (Some ''abc'')) = 2001"
proof -
  have "parseInt ''abc'' = NaN" by code_simp
  then show ?thesis
    by (simp add: api_recent_def tailLines_def js_min_def js_max_def js_sub_def slice_from_def
        parseLines_xs Let_def)
qed

subsection \<open>C5: first in, first out\<close>

text \<open>
  C5: for every session key and tool name under which starts are recorded (both
  truthy) and whose queue is empty, after two starts S1 then S2 are recorded,
  each still within the match window when it is asked for, the first
  \<open>popRecentStart\<close> returns S1, the second S2, and a third returns nothing.
\<close>

theorem fifo_two_starts:
  assumes "truthy sessionKey" and "truthy toolName"
    and "queue_of rs sessionKey toolName = []"
    and "rs1 = pushStart rs t1 sessionKey toolName p1"
    and "rs2 = pushStart rs1 t2 sessionKey toolName p2"
    and "now1 - t1 \<le> maxAgeMs" and "now2 - t2 \<le> maxAgeMs"
    and "r1 = popRecentStart rs2 now1 sessionKey toolName maxAgeMs"
    and "r2 = popRecentStart (snd r1) now2 sessionKey toolName maxAgeMs"
    and "r3 = popRecentStart (snd r2) now3 sessionKey toolName maxAgeMs"
  shows "fst r1 = Some (newStart t1 toolName p1)
       \<and> fst r2 = Some (newStart t2 toolName p2)
       \<and> fst r3 = None"
proof -
  let ?S1 = "newStart t1 toolName p1" and ?S2 = "newStart t2 toolName p2"
  have q2: "queue_of rs2 sessionKey toolName = [?S1, ?S2]"
    using assms(1-5) by (simp add: queue_of_pushStart shiftOver_short)
  have a: "fst r1 = Some ?S1" and qa: "queue_of (snd r1) sessionKey toolName = [?S2]"
    using assms(6,8) q2 by (simp_all add: popRecentStart_fst popRecentStart_queue newStart_def)
  have b: "fst r2 = Some ?S2" and qb: "queue_of (snd r2) sessionKey toolName = []"
    using assms(7,9) qa by (simp_all add: popRecentStart_fst popRecentStart_queue newStart_def)
  have c: "fst r3 = None"
    using assms(10) qb by (simp add: popRecentStart_fst)
  from a b c show ?thesis by simp
qed

theorem fifo_two_starts_witness:
  "truthy (JStr ''s1'') \<and> truthy (JStr ''exec'')
   \<and> queue_of Map.empty (JStr ''s1'') (JStr ''exec'') = []
   \<and> 3000 - 1000 \<le> defaultMaxAgeMs \<and> 4000 - 2000 \<le> defaultMaxAgeMs
   \<and> fst (popRecentStart
        (pushStart (pushStart Map.empty 1000 (JStr ''s1'') (JStr ''exec'') (JObj [(''command'', JStr ''ls'')]))
           2000 (JStr ''s1'') (JStr ''exec'') (JObj [(''command'', JStr ''pwd'')]))
        3000 (JStr ''s1'') (JStr ''exec'') defaultMaxAgeMs)
      = Some \<lparr>tsMs = 1000, summary = JStr ''ls'', paths = [], url = JUndef\<rparr>
   \<and> fst (popRecentStart (snd (popRecentStart
        (pushStart (pushStart Map.empty 1000 (JStr ''s1'') (JStr ''exec'') (JObj [(''command'', JStr ''ls'')]))
           2000 (JStr ''s1'') (JStr ''exec'') (JObj [(''command'', JStr ''pwd'')]))
        3000 (JStr ''s1'') (JStr ''exec'') defaultMaxAgeMs)) 4000 (JStr ''s1'') (JStr ''exec'') defaultMaxAgeMs)
      = Some \<lparr>tsMs = 2000, summary = JStr ''pwd'', paths = [], url = JUndef\<rparr>
   \<and> fst (popRecentStart (snd (popRecentStart (snd (popRecentStart
        (pushStart (pushStart Map.empty 1000 (JStr ''s1'') (JStr ''exec'') (JObj [(''command'', JStr ''ls'')]))
           2000 (JStr ''s1'') (JStr ''exec'') (JObj [(''command'', JStr ''pwd'')]))
        3000 (JStr ''s1'') (JStr ''exec'') defaultMaxAgeMs)) 4000 (JStr ''s1'') (JStr ''exec'') defaultMaxAgeMs))
        5000 (JStr ''s1'') (JStr ''exec'') defaultMaxAgeMs)
      = None"
proof -
  have h: "truthy (JStr ''s1'')" "truthy (JStr ''exec'')"
    "queue_of Map.empty (JStr ''s1'') (JStr ''exec'') = []"
    "3000 - 1000 \<le> defaultMaxAgeMs" "4000 - 2000 \<le> defaultMaxAgeMs"
    by (simp_all add: queue_of_def defaultMaxAgeMs_def)
  have s: "newStart 1000 (JStr ''exec'') (JObj [(''command'', JStr ''ls'')])
             = \<lparr>tsMs = 1000, summary = JStr ''ls'', paths = [], url = JUndef\<rparr>"
    "newStart 2000 (JStr ''exec'') (JObj [(''command'', JStr ''pwd'')])
             = \<lparr>tsMs = 2000, summary = JStr ''pwd'', paths = [], url = JUndef\<rparr>"
    by code_simp+
  from fifo_two_starts [OF h(1) h(2) h(3) refl refl h(4) h(5) refl refl refl,
      of "JObj [(''command'', JStr ''ls'')]" "JObj [(''command'', JStr ''pwd'')]" 5000]
  show ?thesis using h s by simp
qed

subsection \<open>C6: stale observations\<close>

text \<open>
  C6: for every state of the queues and every current time, an observation that
  \<open>popRecentStart\<close> returns is not older than \<open>maxAgeMs\<close>; when every entry of
  the queue is too old (also a single one) it returns nothing; and the queue it
  leaves is the old one without its too-old head entries and without the entry
  returned.
\<close>

theorem stale_never_returned:
  "(\<forall>s. fst (popRecentStart rs now sessionKey toolName maxAgeMs) = Some s \<longrightarrow> now - tsMs s \<le> maxAgeMs)
   \<and> (list_all (\<lambda>s. now - tsMs s > maxAgeMs) (queue_of rs sessionKey toolName)
        \<longrightarrow> fst (popRecentStart rs now sessionKey toolName maxAgeMs) = None)
   \<and> queue_of (snd (popRecentStart rs now sessionKey toolName maxAgeMs)) sessionKey toolName
        = drop 1 (dropWhile (\<lambda>s. now - tsMs s > maxAgeMs) (queue_of rs sessionKey toolName))"
proof (intro conjI allI impI)
  fix s assume "fst (popRecentStart rs now sessionKey toolName maxAgeMs) = Some s"
  then obtain q' where d: "dropWhile (\<lambda>s. now - tsMs s > maxAgeMs) (queue_of rs sessionKey toolName) = s # q'"
    by (auto simp: popRecentStart_fst dropTooOld_dropWhile split: list.splits)
  have "\<not> now - tsMs s > maxAgeMs"
    using hd_dropWhile [of "\<lambda>s. now - tsMs s > maxAgeMs" "queue_of rs sessionKey toolName"] d by simp
  then show "now - tsMs s \<le> maxAgeMs" by simp
next
  assume "list_all (\<lambda>s. now - tsMs s > maxAgeMs) (queue_of rs sessionKey toolName)"
  then have e: "dropWhile (\<lambda>s. now - tsMs s > maxAgeMs) (queue_of rs sessionKey toolName) = []"
    by (simp add: list_all_iff)
  show "fst (popRecentStart rs now sessionKey toolName maxAgeMs) = None"
    unfolding popRecentStart_fst dropTooOld_dropWhile e by simp
next
  show "queue_of (snd (popRecentStart rs now sessionKey toolName maxAgeMs)) sessionKey toolName
        = drop 1 (dropWhile (\<lambda>s. now - tsMs s > maxAgeMs) (queue_of rs sessionKey toolName))"
    by (simp add: popRecentStart_queue dropTooOld_dropWhile)
qed

theorem stale_never_returned_witness:
  "queue_of (pushStart Map.empty 1000 (JStr ''s1'') (JStr ''exec'') (JObj [])) (JStr ''s1'') (JStr ''exec'')
     = [\<lparr>tsMs = 1000, summary = JStr [], paths = [], url = JUndef\<rparr>]
   \<and> fst (popRecentStart (pushStart Map.empty 1000 (JStr ''s1'') (JStr ''exec'') (JObj []))
        31001 (JStr ''s1'') (JStr ''exec'') defaultMaxAgeMs) = None
   \<and> fst (popRecentStart (pushStart Map.empty 1000 (JStr ''s1'') (JStr ''exec'') (JObj []))
        31000 (JStr ''s1'') (JStr ''exec'') defaultMaxAgeMs)
      = Some \<lparr>tsMs = 1000, summary = JStr [], paths = [], url = JUndef\<rparr>
   \<and> 31000 - tsMs \<lparr>tsMs = 1000, summary = JStr [], paths = [], url = JUndef\<rparr> \<le> defaultMaxAgeMs"
proof -
  let ?rs = "pushStart Map.empty 1000 (JStr ''s1'') (JStr ''exec'') (JObj [])"
  have n: "newStart 1000 (JStr ''exec'') (JObj []) = \<lparr>tsMs = 1000, summary = JStr [], paths = [], url = JUndef\<rparr>"
    by code_simp
  have q0: "queue_of Map.empty (JStr ''s1'') (JStr ''exec'') = []"
    by (simp add: queue_of_def)
  have q: "queue_of ?rs (JStr ''s1'') (JStr ''exec'')
     = [\<lparr>tsMs = 1000, summary = JStr [], paths = [], url = JUndef\<rparr>]"
    by (simp add: queue_of_pushStart shiftOver_short q0 n)
  have a: "fst (popRecentStart ?rs 31000 (JStr ''s1'') (JStr ''exec'') defaultMaxAgeMs)
      = Some \<lparr>tsMs = 1000, summary = JStr [], paths = [], url = JUndef\<rparr>"
    by (simp add: popRecentStart_fst q defaultMaxAgeMs_def)
  from stale_never_returned [of ?rs 31001 "JStr ''s1''" "JStr ''exec''" defaultMaxAgeMs]
  have b: "fst (popRecentStart ?rs 31001 (JStr ''s1'') (JStr ''exec'') defaultMaxAgeMs) = None"
    by (simp add: q defaultMaxAgeMs_def)
  from stale_never_returned [of ?rs 31000 "JStr ''s1''" "JStr ''exec''" defaultMaxAgeMs] a
  have c: "31000 - tsMs \<lparr>tsMs = 1000, summary = JStr [], paths = [], url = JUndef\<rparr> \<le> defaultMaxAgeMs"
    by blast
  from q a b c show ?thesis by blast
qed

subsection \<open>C7: the queue holds at most 40 observations\<close>

text \<open>
  C7: for every session key and tool name under which starts are recorded, the
  queue holds at most 40 observations after any \<open>pushStart\<close>, and in every run
  of the service no queue ever holds more; pushing onto a queue of 40 drops its
  oldest entry and keeps the others in order, followed by the new one, so what a
  later \<open>popRecentStart\<close> returns is one of those 40 and never the entry
  dropped.
\<close>

theorem queue_cap:
  assumes "truthy sessionKey" and "truthy toolName"
    and "rs' = pushStart rs now sessionKey toolName params"
  shows "length (queue_of rs' sessionKey toolName) \<le> 40
       \<and> (\<forall>sk tn. length (queue_of (recentStarts (snd (run cfg (initState m f) calls))) sk tn) \<le> 40)
       \<and> (length (queue_of rs sessionKey toolName) = 40 \<longrightarrow>
            queue_of rs' sessionKey toolName
              = tl (queue_of rs sessionKey toolName) @ [newStart now toolName params]
            \<and> (\<forall>s. fst (popRecentStart rs' now' sessionKey toolName maxAgeMs) = Some s
                  \<longrightarrow> s \<in> set (tl (queue_of rs sessionKey toolName) @ [newStart now toolName params])))"
proof -
  let ?new = "newStart now toolName params"
  have q: "queue_of rs' sessionKey toolName = shiftOver (queue_of rs sessionKey toolName @ [?new])"
    using assms by (simp add: queue_of_pushStart)
  have len: "length (queue_of rs' sessionKey toolName) \<le> 40"
    unfolding q shiftOver_drop by simp
  {
    assume full: "length (queue_of rs sessionKey toolName) = 40"
    then obtain x xs where xs: "queue_of rs sessionKey toolName = x # xs"
      by (cases "queue_of rs sessionKey toolName") auto
    have e: "queue_of rs' sessionKey toolName = tl (queue_of rs sessionKey toolName) @ [?new]"
      unfolding q shiftOver_drop using full xs by simp
    have "\<forall>s. fst (popRecentStart rs' now' sessionKey toolName maxAgeMs) = Some s
                  \<longrightarrow> s \<in> set (tl (queue_of rs sessionKey toolName) @ [?new])"
    proof (intro allI impI)
      fix s assume "fst (popRecentStart rs' now' sessionKey toolName maxAgeMs) = Some s"
      then have "s \<in> set (dropWhile (\<lambda>s. now' - tsMs s > maxAgeMs) (queue_of rs' sessionKey toolName))"
        by (auto simp: popRecentStart_fst dropTooOld_dropWhile split: list.splits)
      then have "s \<in> set (queue_of rs' sessionKey toolName)" by (rule set_dropWhileD)
      then show "s \<in> set (tl (queue_of rs sessionKey toolName) @ [?new])" using e by simp
    qed
    with e have "queue_of rs' sessionKey toolName = tl (queue_of rs sessionKey toolName) @ [?new]
            \<and> (\<forall>s. fst (popRecentStart rs' now' sessionKey toolName maxAgeMs) = Some s
                  \<longrightarrow> s \<in> set (tl (queue_of rs sessionKey toolName) @ [?new]))" by blast
  }
  moreover have "\<forall>sk tn. length (queue_of (recentStarts (snd (run cfg (initState m f) calls))) sk tn) \<le> 40"
    using run_capped [OF capped_init, of cfg m f calls] by (simp add: capped_def)
  ultimately show ?thesis using len by blast
qed

theorem queue_cap_witness:
  "truthy (JStr ''s1'') \<and> truthy (JStr ''exec'')
   \<and> length (queue_of exampleFull (JStr ''s1'') (JStr ''exec'')) = 40
   \<and> map tsMs (queue_of exampleFull (JStr ''s1'') (JStr ''exec'')) = map int [1 ..< 41]
   \<and> length (queue_of (pushStart exampleFull 41 (JStr ''s1'') (JStr ''exec'') (JObj []))
         (JStr ''s1'') (JStr ''exec'')) \<le> 40
   \<and> map tsMs (queue_of (pushStart exampleFull 41 (JStr ''s1'') (JStr ''exec'') (JObj []))
         (JStr ''s1'') (JStr ''exec'')) = map int [2 ..< 42]"
proof -
  have t: "truthy (JStr ''s1'')" "truthy (JStr ''exec'')" by simp_all
  have f: "queue_of exampleFull (JStr ''s1'') (JStr ''exec'')
      = map (\<lambda>t. newStart (int t) (JStr ''exec'') (JObj [])) [1 ..< 41]"
    by (simp add: queue_of_def exampleFull_def)
  have l: "length (queue_of exampleFull (JStr ''s1'') (JStr ''exec'')) = 40"
    unfolding f by simp
  have m: "map tsMs (queue_of exampleFull (JStr ''s1'') (JStr ''exec'')) = map int [1 ..< 41]"
    unfolding f by (simp add: newStart_def o_def)
  have n: "tsMs (newStart 41 (JStr ''exec'') (JObj [])) = 41" by (simp add: newStart_def)
  have u: "map int [2 ..< 42] = tl (map int [1 ..< 41]) @ [41]" by code_simp
  from queue_cap [OF t refl, where rs = exampleFull and now = 41 and params = "JObj []"] l
  have q: "length (queue_of (pushStart exampleFull 41 (JStr ''s1'') (JStr ''exec'') (JObj []))
         (JStr ''s1'') (JStr ''exec'')) \<le> 40"
    and e: "queue_of (pushStart exampleFull 41 (JStr ''s1'') (JStr ''exec'') (JObj []))
         (JStr ''s1'') (JStr ''exec'')
       = tl (queue_of exampleFull (JStr ''s1'') (JStr ''exec'')) @ [newStart 41 (JStr ''exec'') (JObj [])]"
    by blast+
  have "map tsMs (queue_of (pushStart exampleFull 41 (JStr ''s1'') (JStr ''exec'') (JObj []))
         (JStr ''s1'') (JStr ''exec'')) = tl (map int [1 ..< 41]) @ [41]"
    unfolding e by (simp add: map_tl m n)
  with t l m q u show ?thesis by simp
qed

subsection \<open>C8: the tail of the ledger\<close>

text \<open>
  C8: for every list of N records appended to a new or empty ledger and every limit
  M \<open>\<le>\<close> N, \<open>tailLines\<close> with limit M returns exactly the lines of the last M
  records, in the order in which they were appended.
\<close>

theorem tail_last_records:
  assumes "M \<le> length entries"
    and "f0 = None \<or> f0 = Some []"
    and "txt = foldl (\<lambda>f e. emitLedger f True e) f0 entries"
  shows "tailLines txt (Num (int M)) = map ledgerLine (drop (length entries - M) entries)"
proof -
  show ?thesis
  proof (cases "entries = []")
    case True
    with assms show ?thesis
      by (auto simp: tailLines_def parseLines_def js_max_def js_sub_def slice_from_def)
  next
    case False
    with assms(2,3) have f: "txt = Some (ledgerText entries)"
      by (auto simp: emit_fold)
    show ?thesis
      using assms(1)
      by (simp add: f tailLines_def parseLines_ledgerText js_max_def js_sub_def slice_from_def
          Let_def drop_map nat_diff_distrib')
  qed
qed

theorem tail_last_records_witness:
  "(2::nat) \<le> length [JObj [(''n'', JNum 1)], JObj [(''n'', JNum 2)], JObj [(''n'', JStr [CHR 0x0A])]]
   \<and> tailLines (foldl (\<lambda>f e. emitLedger f True e) (Some [])
          [JObj [(''n'', JNum 1)], JObj [(''n'', JNum 2)], JObj [(''n'', JStr [CHR 0x0A])]]) (Num (int 2))
      = [''{\"n\":2}'', [CHR ''{'', CHR 0x22, CHR ''n'', CHR 0x22, CHR '':'', CHR 0x22, CHR 0x5C, CHR ''n'', CHR 0x22, CHR ''}'']]"
proof -
  have h: "(2::nat) \<le> length [JObj [(''n'', JNum 1)], JObj [(''n'', JNum 2)], JObj [(''n'', JStr [CHR 0x0A])]]"
    by simp
  have l: "map ledgerLine (drop (length [JObj [(''n'', JNum 1)], JObj [(''n'', JNum 2)], JObj [(''n'', JStr [CHR 0x0A])]] - 2)
        [JObj [(''n'', JNum 1)], JObj [(''n'', JNum 2)], JObj [(''n'', JStr [CHR 0x0A])]])
      = [''{\"n\":2}'', [CHR ''{'', CHR 0x22, CHR ''n'', CHR 0x22, CHR '':'', CHR 0x22, CHR 0x5C, CHR ''n'', CHR 0x22, CHR ''}'']]"
    by code_simp
  from tail_last_records [OF h disjI2 [OF refl] refl] l h show ?thesis by simp
qed

subsection \<open>C9: the export stream\<close>

text \<open>
  C9: for every sequence of lines read from the ledger, every \<open>JSON.parse\<close> and
  every \<open>sinceTs\<close>, the streaming branch of the export writes no line that
  parses to a record whose \<open>ts\<close> is a string sorting strictly before \<open>sinceTs\<close>;
  every line on which parsing fails (a blank line is skipped before any parse)
  is written, followed by a line feed; and nothing is written but lines of the
  ledger.
\<close>

theorem export_filter:
  "(\<forall>line obj ts since.
       line @ [CHR 0x0A] \<in> set (exportStream parse sinceTs lines)
       \<and> sinceTs = Some since \<and> parse line = Some obj \<and> get_prop obj ''ts'' = JStr ts
       \<longrightarrow> \<not> str_lt ts since)
   \<and> (\<forall>line \<in> set lines. line \<noteq> [] \<and> parse line = None
         \<longrightarrow> line @ [CHR 0x0A] \<in> set (exportStream parse sinceTs lines))
   \<and> (\<forall>chunk \<in> set (exportStream parse sinceTs lines).
         \<exists>line \<in> set lines. chunk = line @ [CHR 0x0A])"
proof (intro conjI allI impI ballI)
  fix line obj ts since
  assume a: "line @ [CHR 0x0A] \<in> set (exportStream parse sinceTs lines)
       \<and> sinceTs = Some since \<and> parse line = Some obj \<and> get_prop obj ''ts'' = JStr ts"
  then have "\<not> (since \<noteq> [] \<and> tooEarly parse since line)"
    by (auto simp: exportStream_filter)
  with a show "\<not> str_lt ts since"
    by (cases "since = []") (auto simp: tooEarly_def str_lt_Nil)
next
  fix line assume "line \<in> set lines" and "line \<noteq> [] \<and> parse line = None"
  then show "line @ [CHR 0x0A] \<in> set (exportStream parse sinceTs lines)"
    by (auto simp: exportStream_filter tooEarly_def split: option.splits)
next
  fix chunk assume "chunk \<in> set (exportStream parse sinceTs lines)"
  then show "\<exists>line \<in> set lines. chunk = line @ [CHR 0x0A]"
    by (auto simp: exportStream_filter)
qed

theorem export_filter_witness:
  "exportStream exampleParse (Some ''2025-02-01'') [''old'', ''garbage'', [], ''new'']
     = [''garbage'' @ [CHR 0x0A], ''new'' @ [CHR 0x0A]]
   \<and> ''garbage'' \<in> set [''old'', ''garbage'', [], ''new''] \<and> exampleParse ''garbage'' = None
   \<and> ''garbage'' @ [CHR 0x0A] \<in> set (exportStream exampleParse (Some ''2025-02-01'') [''old'', ''garbage'', [], ''new''])
   \<and> exampleParse ''new'' = Some (JObj [(''ts'', JStr ''2025-03-01'')])
   \<and> \<not> str_lt ''2025-03-01'' ''2025-02-01''
   \<and> str_lt ''2025-01-01'' ''2025-02-01''"
proof -
  have e: "exportStream exampleParse (Some ''2025-02-01'') [''old'', ''garbage'', [], ''new'']
     = [''garbage'' @ [CHR 0x0A], ''new'' @ [CHR 0x0A]]" by code_simp
  have p: "exampleParse ''garbage'' = None"
    "exampleParse ''new'' = Some (JObj [(''ts'', JStr ''2025-03-01'')])"
    "get_prop (JObj [(''ts'', JStr ''2025-03-01'')]) ''ts'' = JStr ''2025-03-01''"
    "str_lt ''2025-01-01'' ''2025-02-01''"
    by code_simp+
  have m: "''garbage'' \<in> set [''old'', ''garbage'', [], ''new'']"
    "''new'' @ [CHR 0x0A] \<in> set (exportStream exampleParse (Some ''2025-02-01'') [''old'', ''garbage'', [], ''new''])"
    unfolding e by simp_all
  note t = export_filter [of exampleParse "Some ''2025-02-01''" "[''old'', ''garbage'', [], ''new'']"]
  from t m(1) p(1) have a: "''garbage'' @ [CHR 0x0A] \<in> set (exportStream exampleParse (Some ''2025-02-01'') [''old'', ''garbage'', [], ''new''])"
    by blast
  from t m(2) p(2,3) have b: "\<not> str_lt ''2025-03-01'' ''2025-02-01''" by blast
  from e m p a b show ?thesis by blast
qed

subsection \<open>C10: the last good session-meta map\<close>

text \<open>
  C10: for every state of the identity maps, when a reload of the session-meta
  map gives an empty map (a failed reload gives the empty map), the periodic
  refresh and the one-shot retry of \<open>resolveLabel\<close> leave the map as it was, and
  \<open>resolveLabel\<close> and \<open>resolveChannel\<close> still answer from it; the map after a
  refresh or a retry is the old one or the reloaded one, and it is the reloaded
  one only if that is non-empty.
\<close>

theorem meta_map_retained:
  "(\<not> nonEmptyMap (loadSessionMetaMap mfile) \<longrightarrow>
      sessionMetaMap (refreshSessionMaps m nextSessionMap mfile nextCronMap) = sessionMetaMap m
      \<and> sessionMetaMap (snd (resolveLabel m mfile sessionKey sessionId fallback)) = sessionMetaMap m
      \<and> (truthy sessionId \<and> truthy (metaLabel m sessionId) \<longrightarrow>
           fst (resolveLabel (refreshSessionMaps m nextSessionMap mfile nextCronMap)
                  mfile sessionKey sessionId fallback) = metaLabel m sessionId)
      \<and> (truthy sessionId
           \<and> truthy (get_prop (get_prop (sessionMetaMap m) (to_string sessionId)) ''channel'') \<longrightarrow>
           resolveChannel (refreshSessionMaps m nextSessionMap mfile nextCronMap)
                  sessionKey sessionId fallback
             = get_prop (get_prop (sessionMetaMap m) (to_string sessionId)) ''channel''))
   \<and> \<not> nonEmptyMap (loadSessionMetaMap None)
   \<and> sessionMetaMap (refreshSessionMaps m nextSessionMap mfile nextCronMap)
        \<in> {sessionMetaMap m, loadSessionMetaMap mfile}
   \<and> sessionMetaMap (snd (resolveLabel m mfile sessionKey sessionId fallback))
        \<in> {sessionMetaMap m, loadSessionMetaMap mfile}
   \<and> (sessionMetaMap (refreshSessionMaps m nextSessionMap mfile nextCronMap) \<noteq> sessionMetaMap m
        \<longrightarrow> nonEmptyMap (loadSessionMetaMap mfile))
   \<and> (sessionMetaMap (snd (resolveLabel m mfile sessionKey sessionId fallback)) \<noteq> sessionMetaMap m
        \<longrightarrow> nonEmptyMap (loadSessionMetaMap mfile))"
  by (auto simp: refreshSessionMaps_def resolveLabel_def resolveChannel_def metaLabel_def Let_def
      loadSessionMetaMap_fail not_nonEmpty_empty)

theorem meta_map_retained_witness:
  "\<not> nonEmptyMap (loadSessionMetaMap None)
   \<and> truthy (JStr ''id1'') \<and> truthy (metaLabel exampleLoaded (JStr ''id1''))
   \<and> sessionMetaMap (refreshSessionMaps exampleLoaded (JObj []) None (JObj [])) = sessionMetaMap exampleLoaded
   \<and> fst (resolveLabel (refreshSessionMaps exampleLoaded (JObj []) None (JObj []))
            None (JStr ''agent:main:main'') (JStr ''id1'') (JStr ''fallback'')) = JStr ''Danilo''
   \<and> resolveChannel (refreshSessionMaps exampleLoaded (JObj []) None (JObj []))
            (JStr ''agent:main:main'') (JStr ''id1'') (JStr ''fallback'') = JStr ''telegram''"
proof -
  have h: "\<not> nonEmptyMap (loadSessionMetaMap None)" by code_simp
  have l: "truthy (JStr ''id1'')" "truthy (metaLabel exampleLoaded (JStr ''id1''))"
    "metaLabel exampleLoaded (JStr ''id1'') = JStr ''Danilo''"
    "get_prop (get_prop (sessionMetaMap exampleLoaded) (to_string (JStr ''id1''))) ''channel'' = JStr ''telegram''"
    by code_simp+
  from meta_map_retained [of None exampleLoaded "JObj []" "JObj []" "JStr ''agent:main:main''"
      "JStr ''id1''" "JStr ''fallback''"] h l
  show ?thesis by simp
qed


end
